theory Spec2Isabelle
  imports Complex_Main "HOL-Library.AList"
begin

section \<open>JavaScript values\<close>

text \<open>
  The thread values, the raw messages and the chat response are untyped in the source
  (\<^verbatim>\<open>Record<string, any>\<close>, the result of \<^verbatim>\<open>response.json()\<close>), so they are modelled
  as JSON values extended with \<^verbatim>\<open>undefined\<close>. An object is an association list of
  its own properties with distinct keys; a lookup takes the first binding.
\<close>

datatype json =
    JUndefined
  | JNull
  | JBool bool
  | JNum rat
  | JStr string
  | JArr "json list"
  | JObj "(string \<times> json) list"

datatype error = TypeError | NetworkError | ChatApiError | JsonSyntaxError

text \<open>JavaScript truthiness (\<^verbatim>\<open>if (x)\<close>, \<^verbatim>\<open>!x\<close>, \<^verbatim>\<open>x ? a : b\<close>, \<^verbatim>\<open>x || y\<close>).\<close>

fun truthy :: "json \<Rightarrow> bool" where
  "truthy JUndefined = False"
| "truthy JNull = False"
| "truthy (JBool b) = b"
| "truthy (JNum n) = (n \<noteq> 0)"
| "truthy (JStr s) = (s \<noteq> [])"
| "truthy (JArr xs) = True"
| "truthy (JObj kvs) = True"

fun nullish :: "json \<Rightarrow> bool" where
  "nullish JUndefined = True"
| "nullish JNull = True"
| "nullish v = False"

text \<open>
  Reading a property \<^verbatim>\<open>v.k\<close> of a value that is neither \<^verbatim>\<open>null\<close> nor
  \<^verbatim>\<open>undefined\<close>. Only the fixed names \<^verbatim>\<open>type\<close>, \<^verbatim>\<open>content\<close>, \<^verbatim>\<open>messages\<close>,
  \<^verbatim>\<open>router\<close>, \<^verbatim>\<open>documents\<close>, \<^verbatim>\<open>answer\<close> and \<^verbatim>\<open>length\<close> are ever read by the
  source, so the indexed properties of arrays and strings are left out.
\<close>

fun get_prop :: "json \<Rightarrow> string \<Rightarrow> json" where
  "get_prop (JObj kvs) k = (case map_of kvs k of Some v \<Rightarrow> v | None \<Rightarrow> JUndefined)"
| "get_prop (JArr xs) k = (if k = ''length'' then JNum (of_nat (length xs)) else JUndefined)"
| "get_prop (JStr s) k = (if k = ''length'' then JNum (of_nat (length s)) else JUndefined)"
| "get_prop v k = JUndefined"

text \<open>\<^verbatim>\<open>v.k\<close> in general: a \<^verbatim>\<open>TypeError\<close> is thrown when \<^verbatim>\<open>v\<close> is nullish.\<close>

definition js_get :: "json \<Rightarrow> string \<Rightarrow> error + json" where
  "js_get v k = (if nullish v then Inl TypeError else Inr (get_prop v k))"

text \<open>\<^verbatim>\<open>v?.length\<close>\<close>

definition opt_length :: "json \<Rightarrow> json" where
  "opt_length v = (if nullish v then JUndefined else get_prop v ''length'')"

text \<open>
  The own properties copied by an object spread \<^verbatim>\<open>{...msg}\<close>. The source spreads a raw
  message only after its \<^verbatim>\<open>type\<close> was found to be a string, which only an object has.
\<close>

fun spread :: "json \<Rightarrow> (string \<times> json) list" where
  "spread (JObj kvs) = kvs"
| "spread v = []"

text \<open>\<^verbatim>\<open>array[i]\<close>: reading past the end gives \<^verbatim>\<open>undefined\<close>.\<close>

definition js_index :: "json list \<Rightarrow> nat \<Rightarrow> json" where
  "js_index array i = (if i < length array then array ! i else JUndefined)"

section \<open>Messages\<close>

text \<open>
  \<^verbatim>\<open>HumanMessage\<close> and \<^verbatim>\<open>AIMessage\<close> are classes of an external library; a message
  is modelled as its class together with the fields object handed to the constructor.
\<close>

datatype base_message =
    HumanMessage "(string \<times> json) list"
  | AIMessage "(string \<times> json) list"

fun init_fields :: "base_message \<Rightarrow> (string \<times> json) list" where
  "init_fields (HumanMessage kvs) = kvs"
| "init_fields (AIMessage kvs) = kvs"

fun is_human :: "base_message \<Rightarrow> bool" where
  "is_human (HumanMessage kvs) = True"
| "is_human (AIMessage kvs) = False"

definition message_content :: "base_message \<Rightarrow> json" where
  "message_content m = get_prop (JObj (init_fields m)) ''content''"

definition message_id :: "base_message \<Rightarrow> json" where
  "message_id m = get_prop (JObj (init_fields m)) ''id''"

text \<open>A message with its \<^verbatim>\<open>id\<close> field removed, to compare messages up to their ids.\<close>

fun erase_id :: "base_message \<Rightarrow> base_message" where
  "erase_id (HumanMessage kvs) = HumanMessage (filter (\<lambda>kv. fst kv \<noteq> ''id'') kvs)"
| "erase_id (AIMessage kvs) = AIMessage (filter (\<lambda>kv. fst kv \<noteq> ''id'') kvs)"

subsection \<open>The four synthetic messages of \<^verbatim>\<open>switchSelectedThread\<close>\<close>

definition tool_call :: "string \<Rightarrow> json \<Rightarrow> json" where
  "tool_call name args = JObj [(''name'', JStr name), (''args'', args)]"

definition progressAIMessage :: "string \<Rightarrow> base_message" where
  "progressAIMessage uuid = AIMessage
     [(''id'', JStr uuid),
      (''content'', JStr ''''),
      (''tool_calls'', JArr [tool_call ''progress'' (JObj [(''step'', JNum 4)])])]"

definition routerMessage :: "string \<Rightarrow> json \<Rightarrow> base_message" where
  "routerMessage uuid router = AIMessage
     [(''content'', JStr ''''),
      (''id'', JStr uuid),
      (''tool_calls'', JArr [tool_call ''router_logic'' router])]"

definition selectedDocumentsAIMessage :: "string \<Rightarrow> json \<Rightarrow> base_message" where
  "selectedDocumentsAIMessage uuid documents = AIMessage
     [(''content'', JStr ''''),
      (''id'', JStr uuid),
      (''tool_calls'', JArr [tool_call ''selected_documents'' (JObj [(''documents'', documents)])])]"

definition answerHeaderToolMsg :: base_message where
  "answerHeaderToolMsg = AIMessage
     [(''content'', JStr ''''),
      (''tool_calls'', JArr [tool_call ''answer_header'' (JObj [])])]"

text \<open>\<^verbatim>\<open>{ ...msg, content: msg.content }\<close>\<close>

definition with_content :: "json \<Rightarrow> (string \<times> json) list" where
  "with_content msg = AList.update ''content'' (get_prop msg ''content'') (spread msg)"

section \<open>\<^verbatim>\<open>nodeToStep\<close>\<close>

definition nodeToStep :: "string \<Rightarrow> nat" where
  "nodeToStep node =
     (if node = ''analyze_and_route_query'' then 0
      else if node = ''create_research_plan'' then 1
      else if node = ''conduct_research'' then 2
      else if node = ''respond'' then 3
      else 0)"

section \<open>The timeline reconstruction of \<^verbatim>\<open>switchSelectedThread\<close>\<close>

text \<open>
  \<^verbatim>\<open>uuidv4()\<close> is an effect. The model takes the sequence of its results as a parameter
  \<open>uuidv4 :: nat \<Rightarrow> string\<close> and threads the number \<open>c\<close> of calls made so far; the next call
  returns \<open>uuidv4 c\<close>.
\<close>

type_synonym emitted = "base_message list \<times> nat"

text \<open>
  \<^verbatim>\<open>index === array.length - 1 || array[index + 1].type === "human"\<close>
\<close>

definition isLastAiMessage :: "nat \<Rightarrow> json list \<Rightarrow> error + bool" where
  "isLastAiMessage index array =
     (if int index = int (length array) - 1 then Inr True
      else case js_get (js_index array (index + 1)) ''type'' of
             Inl e \<Rightarrow> Inl e
           | Inr t \<Rightarrow> Inr (t = JStr ''human''))"

text \<open>The block returned for a terminal \<^verbatim>\<open>ai\<close> entry.\<close>

definition lastAiBlock :: "(nat \<Rightarrow> string) \<Rightarrow> json \<Rightarrow> json \<Rightarrow> nat \<Rightarrow> emitted" where
  "lastAiBlock uuidv4 threadValues msg c =
     (let router = get_prop threadValues ''router'';
          c1 = (if truthy router then Suc c else c);
          documents = get_prop threadValues ''documents'';
          c2 = (if truthy (opt_length documents) then Suc c1 else c1)
      in ((if truthy router then [routerMessage (uuidv4 c) router] else []) @
          (if truthy (opt_length documents)
           then [selectedDocumentsAIMessage (uuidv4 c1) documents] else []) @
          [answerHeaderToolMsg, AIMessage (with_content msg)],
          c2))"

text \<open>The callback handed to \<^verbatim>\<open>flatMap\<close>, with the array it returns.\<close>

definition callback ::
  "(nat \<Rightarrow> string) \<Rightarrow> json \<Rightarrow> json \<Rightarrow> nat \<Rightarrow> json list \<Rightarrow> nat \<Rightarrow> error + emitted" where
  "callback uuidv4 threadValues msg index array c =
     (case js_get msg ''type'' of
        Inl e \<Rightarrow> Inl e
      | Inr t \<Rightarrow>
          if t = JStr ''human'' then
            Inr ([HumanMessage (with_content msg), progressAIMessage (uuidv4 c)], Suc c)
          else if t = JStr ''ai'' then
            (case isLastAiMessage index array of
               Inl e \<Rightarrow> Inl e
             | Inr lastAi \<Rightarrow>
                 if lastAi then Inr (lastAiBlock uuidv4 threadValues msg c)
                 else Inr ([AIMessage (with_content msg)], c))
          else Inr ([], c))"

text \<open>
  \<^verbatim>\<open>array.flatMap(f)\<close>: the callback runs on the indices in order and the arrays it
  returns are concatenated; an exception thrown by a call ends the whole walk.
\<close>

fun flatMap_loop :: "(nat \<Rightarrow> nat \<Rightarrow> error + emitted) \<Rightarrow> nat list \<Rightarrow> nat \<Rightarrow> error + emitted" where
  "flatMap_loop f [] c = Inr ([], c)"
| "flatMap_loop f (i # is) c =
     (case f i c of
        Inl e \<Rightarrow> Inl e
      | Inr (out, c1) \<Rightarrow>
          (case flatMap_loop f is c1 of
             Inl e \<Rightarrow> Inl e
           | Inr (rest, c2) \<Rightarrow> Inr (out @ rest, c2)))"

definition flatMap :: "(json \<Rightarrow> nat \<Rightarrow> json list \<Rightarrow> nat \<Rightarrow> error + emitted) \<Rightarrow> json list \<Rightarrow> nat \<Rightarrow> error + emitted" where
  "flatMap f array c = flatMap_loop (\<lambda>i. f (array ! i) i array) [0..<length array] c"

text \<open>
  \<^verbatim>\<open>actualMessages\<close>: \<^verbatim>\<open>threadValues.messages.flatMap(...)\<close>. Only an array has a
  \<^verbatim>\<open>flatMap\<close> method; on any other value of \<^verbatim>\<open>threadValues.messages\<close> the call throws.
  \<^verbatim>\<open>threadValues\<close> is truthy here, hence not nullish.
\<close>

definition actualMessages :: "(nat \<Rightarrow> string) \<Rightarrow> json \<Rightarrow> nat \<Rightarrow> error + emitted" where
  "actualMessages uuidv4 threadValues c =
     (case get_prop threadValues ''messages'' of
        JArr array \<Rightarrow> flatMap (callback uuidv4 threadValues) array c
      | _ \<Rightarrow> Inl TypeError)"

section \<open>The provider state and its operations\<close>

record graph_state =
  userId :: "string option"
  runId :: string
  isStreaming :: bool
  messages :: "base_message list"
  selectedModel :: string
  threadId :: "string option"

text \<open>
  The operations act on the state through the setters of the hooks and on the outside
  through \<^verbatim>\<open>toast\<close> and \<^verbatim>\<open>fetch\<close>. An operation is modelled by the sequence of these
  actions, in the order the source performs them.

  \<open>SetMessagesUpdater\<close> is \<^verbatim>\<open>setMessages((prevMessages) => [...prevMessages, m])\<close>.
  React runs the updater, not \<^verbatim>\<open>streamMessage\<close>: the expression that builds \<^verbatim>\<open>m\<close> is
  evaluated there, outside the \<^verbatim>\<open>try\<close> of \<^verbatim>\<open>streamMessage\<close>, and either throws
  (\<open>Inl\<close>) or gives the message to append (\<open>Inr\<close>). An updater that throws gives no
  new messages, and no \<^verbatim>\<open>catch\<close> of the source sees its exception.
\<close>

datatype effect =
    SetThreadId string
  | SetMessages "base_message list"
  | SetMessagesUpdater "error + base_message"
  | SetRunId string
  | SetIsStreaming bool
  | Toast string string
  | Fetch "json list" string

fun apply_effect :: "graph_state \<Rightarrow> effect \<Rightarrow> graph_state" where
  "apply_effect s (SetThreadId t) = s\<lparr>threadId := Some t\<rparr>"
| "apply_effect s (SetMessages ms) = s\<lparr>messages := ms\<rparr>"
| "apply_effect s (SetMessagesUpdater (Inr m)) = s\<lparr>messages := messages s @ [m]\<rparr>"
| "apply_effect s (SetMessagesUpdater (Inl e)) = s"
| "apply_effect s (SetRunId r) = s\<lparr>runId := r\<rparr>"
| "apply_effect s (SetIsStreaming b) = s\<lparr>isStreaming := b\<rparr>"
| "apply_effect s (Toast title description) = s"
| "apply_effect s (Fetch body model) = s"

definition run :: "effect list \<Rightarrow> graph_state \<Rightarrow> graph_state" where
  "run effs s = foldl apply_effect s effs"

text \<open>The state after each action of a sequence, the initial state first.\<close>

fun states_along :: "effect list \<Rightarrow> graph_state \<Rightarrow> graph_state list" where
  "states_along [] s = [s]"
| "states_along (e # es) s = s # states_along es (apply_effect s e)"

fun is_toast :: "effect \<Rightarrow> bool" where
  "is_toast (Toast title description) = True"
| "is_toast e = False"

fun is_fetch :: "effect \<Rightarrow> bool" where
  "is_fetch (Fetch body model) = True"
| "is_fetch e = False"

subsection \<open>\<^verbatim>\<open>sendChat\<close>\<close>

text \<open>
  What \<^verbatim>\<open>fetch\<close> does is a parameter: the promise rejects, or it resolves to a response
  with its \<^verbatim>\<open>ok\<close> flag and its body, \<open>None\<close> when the body is not JSON and
  \<^verbatim>\<open>response.json()\<close> rejects.
\<close>

datatype fetch_result = FetchRejected | Response bool "json option"

definition sendChat :: "(json list \<Rightarrow> string \<Rightarrow> fetch_result) \<Rightarrow> json list \<Rightarrow> string \<Rightarrow> error + json" where
  "sendChat fetch msgs model =
     (case fetch msgs model of
        FetchRejected \<Rightarrow> Inl NetworkError
      | Response ok body \<Rightarrow>
          if \<not> ok then Inl ChatApiError
          else (case body of None \<Rightarrow> Inl JsonSyntaxError | Some j \<Rightarrow> Inr j))"

subsection \<open>\<^verbatim>\<open>streamMessage\<close>\<close>

text \<open>\<^verbatim>\<open>!userId\<close> holds for \<^verbatim>\<open>undefined\<close> and for the empty string.\<close>

fun userId_missing :: "string option \<Rightarrow> bool" where
  "userId_missing None = True"
| "userId_missing (Some u) = (u = [])"

definition identityMissingToast :: effect where
  "identityMissingToast = Toast ''Error'' ''User ID not found''"

definition backendUnavailableToast :: effect where
  "backendUnavailableToast = Toast ''Error'' ''Failed to get response from backend.''"

text \<open>\<^verbatim>\<open>new AIMessage({ content: response.answer || response, id: uuidv4() })\<close>\<close>

definition answerMessage :: "json \<Rightarrow> json \<Rightarrow> string \<Rightarrow> base_message" where
  "answerMessage answer response uuid = AIMessage
     [(''content'', if truthy answer then answer else response),
      (''id'', JStr uuid)]"

text \<open>
  \<^verbatim>\<open>streamMessage\<close>, with \<^verbatim>\<open>params.messages\<close> as an optional list. The result is the
  sequence of actions and the number of \<^verbatim>\<open>uuidv4()\<close> calls made so far. The body of the
  \<^verbatim>\<open>try\<close> throws only when \<^verbatim>\<open>sendChat\<close> rejects. After \<^verbatim>\<open>sendChat\<close> resolves the
  \<^verbatim>\<open>try\<close> only hands the updater to \<^verbatim>\<open>setMessages\<close>; \<^verbatim>\<open>response.answer\<close> is read and
  then \<^verbatim>\<open>uuidv4()\<close> is called when the updater runs, so reading \<^verbatim>\<open>answer\<close> from a
  \<^verbatim>\<open>null\<close> response throws there, before any id is drawn and with no notification.
\<close>

definition streamMessage ::
  "(nat \<Rightarrow> string) \<Rightarrow> (json list \<Rightarrow> string \<Rightarrow> fetch_result) \<Rightarrow> graph_state \<Rightarrow>
   json list option \<Rightarrow> nat \<Rightarrow> effect list \<times> nat" where
  "streamMessage uuidv4 fetch s params_messages c =
     (if userId_missing (userId s) then ([identityMissingToast], c)
      else
        let msgs = (case params_messages of None \<Rightarrow> [] | Some ms \<Rightarrow> ms);
            entry = [SetRunId '''', SetIsStreaming True, Fetch msgs (selectedModel s)];
            (body, c1) =
              (case sendChat fetch msgs (selectedModel s) of
                 Inl e \<Rightarrow> ([backendUnavailableToast], c)
               | Inr response \<Rightarrow>
                   (case js_get response ''answer'' of
                      Inl e \<Rightarrow> ([SetMessagesUpdater (Inl e)], c)
                    | Inr answer \<Rightarrow>
                        ([SetMessagesUpdater (Inr (answerMessage answer response (uuidv4 c)))],
                         Suc c)))
        in (entry @ body @ [SetIsStreaming False], c1))"

subsection \<open>\<^verbatim>\<open>switchSelectedThread\<close>\<close>

record thread =
  thread_id :: string
  thread_values :: json

datatype outcome = Returned | Threw error

text \<open>
  The number of \<^verbatim>\<open>uuidv4()\<close> calls made when the walk of \<^verbatim>\<open>flatMap\<close> ends, whether it
  returns or throws: the calls of the callbacks that returned before. A callback that
  throws does so when it reads \<^verbatim>\<open>msg.type\<close> or \<^verbatim>\<open>array[index + 1].type\<close>, before it
  calls \<^verbatim>\<open>uuidv4()\<close>.
\<close>

fun flatMap_uuids :: "(nat \<Rightarrow> nat \<Rightarrow> error + emitted) \<Rightarrow> nat list \<Rightarrow> nat \<Rightarrow> nat" where
  "flatMap_uuids f [] c = c"
| "flatMap_uuids f (i # is) c =
     (case f i c of
        Inl e \<Rightarrow> c
      | Inr (out, c1) \<Rightarrow> flatMap_uuids f is c1)"

definition actualMessages_uuids :: "(nat \<Rightarrow> string) \<Rightarrow> json \<Rightarrow> nat \<Rightarrow> nat" where
  "actualMessages_uuids uuidv4 threadValues c =
     (case get_prop threadValues ''messages'' of
        JArr array \<Rightarrow>
          flatMap_uuids (\<lambda>i. callback uuidv4 threadValues (array ! i) i array) [0..<length array] c
      | _ \<Rightarrow> c)"

definition switchSelectedThread ::
  "(nat \<Rightarrow> string) \<Rightarrow> thread \<Rightarrow> nat \<Rightarrow> effect list \<times> outcome \<times> nat" where
  "switchSelectedThread uuidv4 thread c =
     (if \<not> truthy (thread_values thread) then
        ([SetThreadId (thread_id thread), SetMessages []], Returned, c)
      else
        case actualMessages uuidv4 (thread_values thread) c of
          Inl e \<Rightarrow>
            ([SetThreadId (thread_id thread)], Threw e,
             actualMessages_uuids uuidv4 (thread_values thread) c)
        | Inr (actual, c1) \<Rightarrow>
            ([SetThreadId (thread_id thread), SetMessages actual], Returned, c1))"

section \<open>Notions used to state the properties\<close>

subsection \<open>Raw entries\<close>

definition is_human_entry :: "json \<Rightarrow> bool" where
  "is_human_entry m \<longleftrightarrow> js_get m ''type'' = Inr (JStr ''human'')"

definition is_ai_entry :: "json \<Rightarrow> bool" where
  "is_ai_entry m \<longleftrightarrow> js_get m ''type'' = Inr (JStr ''ai'')"

text \<open>An entry whose \<^verbatim>\<open>type\<close> can be read and is neither \<^verbatim>\<open>"human"\<close> nor \<^verbatim>\<open>"ai"\<close>.\<close>

definition unrecognised :: "json \<Rightarrow> bool" where
  "unrecognised m =
     (case js_get m ''type'' of Inl e \<Rightarrow> False | Inr t \<Rightarrow> t \<noteq> JStr ''human'' \<and> t \<noteq> JStr ''ai'')"

text \<open>
  The test of the source for a terminal entry, read off the array: an \<^verbatim>\<open>ai\<close> entry
  that is the last entry of the array or whose immediate successor is a \<^verbatim>\<open>human\<close>
  entry.
\<close>

definition terminal_at :: "json list \<Rightarrow> nat \<Rightarrow> bool" where
  "terminal_at array index \<longleftrightarrow>
     is_ai_entry (array ! index) \<and>
     (Suc index = length array \<or> (Suc index < length array \<and> is_human_entry (array ! Suc index)))"

fun terminal_count :: "json list \<Rightarrow> nat" where
  "terminal_count [] = 0"
| "terminal_count (msg # rest) =
     (if is_ai_entry msg \<and> (rest = [] \<or> is_human_entry (hd rest)) then 1 else 0)
     + terminal_count rest"

text \<open>
  The number of maximal contiguous runs of \<^verbatim>\<open>ai\<close> entries of a raw list, counted at the
  entry that ends each run.
\<close>

fun ai_runs :: "json list \<Rightarrow> nat" where
  "ai_runs [] = 0"
| "ai_runs [m] = (if is_ai_entry m then 1 else 0)"
| "ai_runs (m # n # rest) =
     (if is_ai_entry m \<and> \<not> is_ai_entry n then 1 else 0) + ai_runs (n # rest)"

text \<open>
  No \<^verbatim>\<open>ai\<close> entry of the list is directly followed by an entry that is neither a
  \<^verbatim>\<open>human\<close> nor an \<^verbatim>\<open>ai\<close> entry.
\<close>

fun ai_successors_recognised :: "json list \<Rightarrow> bool" where
  "ai_successors_recognised [] = True"
| "ai_successors_recognised [m] = True"
| "ai_successors_recognised (m # n # rest) =
     ((if is_ai_entry m then is_ai_entry n \<or> is_human_entry n else True)
      \<and> ai_successors_recognised (n # rest))"

text \<open>
  The terminal assistant entry in the words of the specification: the last assistant entry
  before the next human entry or the end of the list. \<open>no_ai_before_human\<close> holds of the
  entries after it when none of them, up to the next \<^verbatim>\<open>human\<close> entry or the end, is an
  \<^verbatim>\<open>ai\<close> entry.
\<close>

fun no_ai_before_human :: "json list \<Rightarrow> bool" where
  "no_ai_before_human [] = True"
| "no_ai_before_human (m # rest) =
     (if is_human_entry m then True
      else if is_ai_entry m then False
      else no_ai_before_human rest)"

definition last_assistant_of_exchange :: "json list \<Rightarrow> nat \<Rightarrow> bool" where
  "last_assistant_of_exchange array index \<longleftrightarrow>
     index < length array \<and> is_ai_entry (array ! index) \<and>
     no_ai_before_human (drop (Suc index) array)"

text \<open>The shape of \<^verbatim>\<open>documents?: object[]\<close>: a list, or absent.\<close>

fun list_or_absent :: "json \<Rightarrow> bool" where
  "list_or_absent JUndefined = True"
| "list_or_absent JNull = True"
| "list_or_absent (JArr xs) = True"
| "list_or_absent v = False"

fun nonempty_list :: "json \<Rightarrow> bool" where
  "nonempty_list (JArr (x # xs)) = True"
| "nonempty_list v = False"

subsection \<open>Reading a marker\<close>

definition tool_calls :: "base_message \<Rightarrow> json" where
  "tool_calls m = get_prop (JObj (init_fields m)) ''tool_calls''"

fun first_elem :: "json \<Rightarrow> json" where
  "first_elem (JArr (x # xs)) = x"
| "first_elem v = JUndefined"

definition marker_name :: "base_message \<Rightarrow> json" where
  "marker_name m = get_prop (first_elem (tool_calls m)) ''name''"

definition marker_args :: "base_message \<Rightarrow> json" where
  "marker_args m = get_prop (first_elem (tool_calls m)) ''args''"

text \<open>
  A progress marker is a message built exactly as \<open>progressAIMessage\<close> builds it, whatever
  its id; an answer-header marker is the message \<open>answerHeaderToolMsg\<close>.
\<close>

definition is_progress :: "base_message \<Rightarrow> bool" where
  "is_progress m \<longleftrightarrow> erase_id m = erase_id (progressAIMessage [])"

definition is_answer_header :: "base_message \<Rightarrow> bool" where
  "is_answer_header m \<longleftrightarrow> m = answerHeaderToolMsg"

definition count_answer_headers :: "base_message list \<Rightarrow> nat" where
  "count_answer_headers out = length (filter is_answer_header out)"

text \<open>The result of a reconstruction with the ids of its messages erased.\<close>

definition modulo_ids :: "error + emitted \<Rightarrow> error + base_message list" where
  "modulo_ids r = map_sum id (map erase_id \<circ> fst) r"

subsection \<open>The walk, on the remaining array\<close>

text \<open>
  The callback reads its index and the array only to look at the next entry, so the walk
  of \<open>flatMap\<close> can be restated by recursion on the entries that remain
  (lemma \<open>flatMap_walk\<close> below); the proofs follow this recursion.
\<close>

fun walk :: "(nat \<Rightarrow> string) \<Rightarrow> json \<Rightarrow> json list \<Rightarrow> nat \<Rightarrow> error + emitted" where
  "walk uuidv4 threadValues [] c = Inr ([], c)"
| "walk uuidv4 threadValues (msg # rest) c =
     (case callback uuidv4 threadValues msg 0 (msg # rest) c of
        Inl e \<Rightarrow> Inl e
      | Inr (out, c1) \<Rightarrow>
          (case walk uuidv4 threadValues rest c1 of
             Inl e \<Rightarrow> Inl e
           | Inr (later, c2) \<Rightarrow> Inr (out @ later, c2)))"

subsection \<open>Sample inputs\<close>

definition sample_uuid :: "nat \<Rightarrow> string" where
  "sample_uuid n = replicate (Suc n) (CHR ''u'')"

text \<open>The state a fresh provider starts from (the arguments of its \<^verbatim>\<open>useState\<close> calls).\<close>

definition initial_state :: "string option \<Rightarrow> graph_state" where
  "initial_state uid = \<lparr>userId = uid, runId = '''', isStreaming = False, messages = [],
     selectedModel = ''google_genai/gemini-2.5-pro'', threadId = None\<rparr>"

definition raw_human :: "string \<Rightarrow> json" where
  "raw_human body = JObj [(''type'', JStr ''human''), (''content'', JStr body)]"

definition raw_ai :: "string \<Rightarrow> json" where
  "raw_ai body = JObj [(''type'', JStr ''ai''), (''content'', JStr body)]"

definition raw_system :: "string \<Rightarrow> json" where
  "raw_system body = JObj [(''type'', JStr ''system''), (''content'', JStr body)]"

definition scenario_snapshot :: json where
  "scenario_snapshot = JObj
     [(''messages'', JArr [JObj [(''type'', JStr ''human''), (''content'', JStr ''Q'')],
                           JObj [(''type'', JStr ''ai''), (''content'', JStr ''A'')]]),
      (''router'', JObj [(''decision'', JStr ''docs'')]),
      (''documents'', JArr [JObj [(''metadata'', JObj [(''source'', JStr ''x'')])]])]"

definition trailing_system_snapshot :: json where
  "trailing_system_snapshot = JObj
     [(''messages'', JArr [raw_human ''Q'', raw_ai ''A'', raw_system ''S'']),
      (''router'', JObj [(''decision'', JStr ''docs'')]),
      (''documents'', JArr [JObj [(''metadata'', JObj [(''source'', JStr ''x'')])]])]"

section \<open>The walk of \<^verbatim>\<open>flatMap\<close>, entry by entry\<close>

lemma isLastAiMessage_drop:
  "i < length array \<Longrightarrow> isLastAiMessage i array = isLastAiMessage 0 (drop i array)"
  by (auto simp: isLastAiMessage_def js_index_def)

lemma callback_drop:
  "i < length array \<Longrightarrow>
   callback uuidv4 tv (array ! i) i array c = callback uuidv4 tv (array ! i) 0 (drop i array) c"
  unfolding callback_def by (simp only: isLastAiMessage_drop)

lemma flatMap_loop_walk:
  "n = length array - i \<Longrightarrow>
   flatMap_loop (\<lambda>i. callback uuidv4 tv (array ! i) i array) [i..<length array] c
     = walk uuidv4 tv (drop i array) c"
proof (induction n arbitrary: i c)
  case 0
  then show ?case by simp
next
  case (Suc n)
  then have lt: "i < length array" by simp
  have d: "drop i array = array ! i # drop (Suc i) array"
    using lt by (simp add: Cons_nth_drop_Suc)
  have u: "[i..<length array] = i # [Suc i..<length array]"
    using lt by (simp add: upt_conv_Cons)
  have ih: "\<And>c. flatMap_loop (\<lambda>i. callback uuidv4 tv (array ! i) i array) [Suc i..<length array] c
     = walk uuidv4 tv (drop (Suc i) array) c"
    using Suc by simp
  show ?case
    unfolding u
    by (simp add: ih callback_drop[OF lt] d split: sum.splits prod.splits)
qed

lemma flatMap_walk: "flatMap (callback uuidv4 tv) array c = walk uuidv4 tv array c"
  using flatMap_loop_walk[of "length array" array 0] by (simp add: flatMap_def)

lemma actualMessages_walk:
  "actualMessages uuidv4 tv c =
     (case get_prop tv ''messages'' of JArr array \<Rightarrow> walk uuidv4 tv array c | _ \<Rightarrow> Inl TypeError)"
  by (simp add: actualMessages_def flatMap_walk split: json.splits)

lemma actualMessages_InrD:
  assumes "actualMessages uuidv4 tv c = Inr r"
  obtains array where "get_prop tv ''messages'' = JArr array" "walk uuidv4 tv array c = Inr r"
  using assms by (auto simp: actualMessages_walk split: json.splits)

lemma walk_Cons_Inr:
  assumes "walk uuidv4 tv (msg # rest) c = Inr (out, c')"
  obtains blk c1 later where
    "callback uuidv4 tv msg 0 (msg # rest) c = Inr (blk, c1)"
    "walk uuidv4 tv rest c1 = Inr (later, c')" "out = blk @ later"
  using assms by (auto split: sum.splits prod.splits)

lemma isLast0: "isLastAiMessage 0 (msg # rest) =
   (case rest of [] \<Rightarrow> Inr True
    | nxt # _ \<Rightarrow> (case js_get nxt ''type'' of Inl e \<Rightarrow> Inl e | Inr t \<Rightarrow> Inr (t = JStr ''human'')))"
  by (simp add: isLastAiMessage_def js_index_def split: list.splits)

text \<open>The four things the callback can return for the first of the remaining entries.\<close>

lemma callback_cases:
  assumes "callback uuidv4 tv msg 0 (msg # rest) c = Inr (out, c1)"
  obtains
    (human) "is_human_entry msg"
      "out = [HumanMessage (with_content msg), progressAIMessage (uuidv4 c)]" "c1 = Suc c"
  | (terminal) "is_ai_entry msg" "rest = [] \<or> is_human_entry (hd rest)"
      "lastAiBlock uuidv4 tv msg c = (out, c1)"
  | (inner) "is_ai_entry msg" "rest \<noteq> []" "\<not> is_human_entry (hd rest)"
      "out = [AIMessage (with_content msg)]" "c1 = c"
  | (other) "\<not> is_human_entry msg" "\<not> is_ai_entry msg" "out = []" "c1 = c"
  using assms
  by (auto simp: callback_def isLast0 is_human_entry_def is_ai_entry_def
           split: sum.splits if_splits list.splits)

lemma callback_terminal:
  assumes "index < length array" and "terminal_at array index"
  shows "callback uuidv4 tv (array ! index) index array c
           = Inr (lastAiBlock uuidv4 tv (array ! index) c)"
  using assms
  by (auto simp: callback_def terminal_at_def is_ai_entry_def is_human_entry_def
        isLastAiMessage_def js_index_def)

lemma isLastAiMessage_terminal:
  assumes "index < length array"
  shows "isLastAiMessage index array = Inr True \<longleftrightarrow>
     (Suc index = length array \<or> (Suc index < length array \<and> is_human_entry (array ! Suc index)))"
  using assms
  by (auto simp: isLastAiMessage_def js_index_def is_human_entry_def split: sum.splits)

subsection \<open>A copied raw entry is never mistaken for a marker\<close>

lemma typed_has_type_key:
  "js_get msg ''type'' = Inr (JStr t) \<Longrightarrow> ''type'' \<in> fst ` set (with_content msg)"
  by (cases msg) (auto simp: js_get_def with_content_def dom_update split: option.splits if_splits dest!: map_of_SomeD intro: rev_image_eqI)

lemma filter_keeps_type:
  assumes "''type'' \<in> fst ` set kvs" and "filter (\<lambda>kv. fst kv \<noteq> ''id'') kvs = L"
  shows "''type'' \<in> fst ` set L"
proof -
  from assms(1) obtain b where "(''type'', b) \<in> set kvs" by auto
  then have "(''type'', b) \<in> set (filter (\<lambda>kv. fst kv \<noteq> ''id'') kvs)" by simp
  then show ?thesis unfolding assms(2) by (rule rev_image_eqI) simp
qed

lemma passthrough_not_progress:
  "''type'' \<in> fst ` set kvs \<Longrightarrow> \<not> is_progress (AIMessage kvs)"
  using filter_keeps_type[of kvs] by (fastforce simp: is_progress_def progressAIMessage_def)

lemma passthrough_not_answer_header:
  "''type'' \<in> fst ` set kvs \<Longrightarrow> \<not> is_answer_header (AIMessage kvs)"
  by (auto simp: is_answer_header_def answerHeaderToolMsg_def)

lemma lastAiBlock_no_progress:
  "lastAiBlock uuidv4 tv msg c = (out, c1) \<Longrightarrow> is_ai_entry msg \<Longrightarrow> m \<in> set out \<Longrightarrow>
   \<not> is_progress m \<and> \<not> is_human m"
  using passthrough_not_progress[OF typed_has_type_key[of msg "''ai''"]]
  by (auto simp: lastAiBlock_def Let_def is_ai_entry_def is_progress_def progressAIMessage_def
        routerMessage_def selectedDocumentsAIMessage_def answerHeaderToolMsg_def tool_call_def split: if_splits)

lemma message_content_passthrough:
  "message_content (AIMessage (with_content msg)) = get_prop msg ''content''"
  "message_content (HumanMessage (with_content msg)) = get_prop msg ''content''"
  by (simp_all add: message_content_def with_content_def update_conv')

lemma progress_marker_view:
  "marker_name (progressAIMessage u) = JStr ''progress''"
  "marker_args (progressAIMessage u) = JObj [(''step'', JNum 4)]"
  "is_progress (progressAIMessage u)"
  by (simp_all add: marker_name_def marker_args_def tool_calls_def progressAIMessage_def
        tool_call_def is_progress_def)

subsection \<open>The count of \<^verbatim>\<open>uuidv4()\<close> calls only grows\<close>

lemma lastAiBlock_mono: "lastAiBlock uuidv4 tv msg c = (out, c1) \<Longrightarrow> c \<le> c1"
  by (auto simp: lastAiBlock_def Let_def split: if_splits)

lemma callback_mono: "callback uuidv4 tv msg 0 (msg # rest) c = Inr (out, c1) \<Longrightarrow> c \<le> c1"
  by (erule callback_cases) (auto dest: lastAiBlock_mono)

lemma walk_mono: "walk uuidv4 tv raw c = Inr (out, c1) \<Longrightarrow> c \<le> c1"
proof (induction raw arbitrary: c out c1)
  case Nil then show ?case by simp
next
  case (Cons msg rest)
  then show ?case
    by (auto split: sum.splits prod.splits dest!: callback_mono) fastforce
qed

subsection \<open>The reconstruction returns on every array of objects\<close>

lemma walk_total:
  "\<forall>m \<in> set raw. \<not> nullish m \<Longrightarrow> \<exists>out c'. walk uuidv4 tv raw c = Inr (out, c')"
proof (induction raw arbitrary: c)
  case Nil
  then show ?case by simp
next
  case (Cons msg rest)
  have "\<exists>blk c1. callback uuidv4 tv msg 0 (msg # rest) c = Inr (blk, c1)"
    using Cons.prems
    by (cases rest) (auto simp: callback_def isLast0 js_get_def lastAiBlock_def Let_def)
  then obtain blk c1 where b: "callback uuidv4 tv msg 0 (msg # rest) c = Inr (blk, c1)" by blast
  from Cons.IH[of c1] Cons.prems obtain later c' where "walk uuidv4 tv rest c1 = Inr (later, c')"
    by auto
  with b show ?case by simp
qed

lemma actualMessages_total:
  assumes "get_prop tv ''messages'' = JArr array" and "\<forall>m \<in> set array. \<not> nullish m"
  shows "\<exists>out c'. actualMessages uuidv4 tv c = Inr (out, c')"
  using assms walk_total[of array uuidv4 tv c] by (simp add: actualMessages_walk)

lemma actualMessages_malformed:
  assumes "\<And>array. get_prop tv ''messages'' \<noteq> JArr array"
  shows "actualMessages uuidv4 tv c = Inl TypeError"
  using assms by (cases "get_prop tv ''messages''") (auto simp: actualMessages_def)

lemma walk_unrecognised:
  "\<forall>m \<in> set raw. \<not> nullish m \<and> \<not> is_human_entry m \<and> \<not> is_ai_entry m \<Longrightarrow>
   walk uuidv4 tv raw c = Inr ([], c)"
proof (induction raw)
  case Nil
  then show ?case by simp
next
  case (Cons msg rest)
  then have "callback uuidv4 tv msg 0 (msg # rest) c = Inr ([], c)"
    by (auto simp: callback_def js_get_def is_human_entry_def is_ai_entry_def)
  with Cons show ?case by simp
qed

section \<open>Human entries and progress markers\<close>

lemma block_human_first:
  assumes "callback uuidv4 tv msg 0 (msg # rest) c = Inr (out, c1)"
    and "i < length out" and "is_human (out ! i)"
  shows "out = [HumanMessage (with_content msg), progressAIMessage (uuidv4 c)] \<and> i = 0 \<and> c1 = Suc c"
  using assms(1)
proof (cases rule: callback_cases)
  case human
  with assms(2,3) show ?thesis by (cases i) (auto simp: progressAIMessage_def)
next
  case terminal
  from lastAiBlock_no_progress[OF terminal(3,1), of "out ! i"] assms(2,3)
  show ?thesis by simp
next
  case inner
  with assms(2,3) show ?thesis by simp
next
  case other
  with assms(2) show ?thesis by simp
qed

lemma block_progress_second:
  assumes "callback uuidv4 tv msg 0 (msg # rest) c = Inr (out, c1)"
    and "j < length out" and "is_progress (out ! j)"
  shows "out = [HumanMessage (with_content msg), progressAIMessage (uuidv4 c)] \<and> j = 1"
  using assms(1)
proof (cases rule: callback_cases)
  case human
  with assms(2,3) show ?thesis by (cases j) (auto simp: is_progress_def progressAIMessage_def)
next
  case terminal
  from lastAiBlock_no_progress[OF terminal(3,1), of "out ! j"] assms(2,3)
  show ?thesis by simp
next
  case inner
  from inner(1) have "''type'' \<in> fst ` set (with_content msg)"
    by (simp add: is_ai_entry_def typed_has_type_key)
  with inner(4) assms(2,3) show ?thesis by (simp add: passthrough_not_progress)
next
  case other
  with assms(2) show ?thesis by simp
qed

lemma walk_human_followed:
  "walk uuidv4 tv raw c = Inr (out, c') \<Longrightarrow> i < length out \<Longrightarrow> is_human (out ! i) \<Longrightarrow>
   Suc i < length out \<and> (\<exists>k. c \<le> k \<and> k < c' \<and> out ! Suc i = progressAIMessage (uuidv4 k))"
proof (induction raw arbitrary: c out c' i)
  case Nil
  then show ?case by simp
next
  case (Cons msg rest)
  from Cons.prems(1) obtain blk c1 later where
    b: "callback uuidv4 tv msg 0 (msg # rest) c = Inr (blk, c1)"
    and w: "walk uuidv4 tv rest c1 = Inr (later, c')" and o: "out = blk @ later"
    by (rule walk_Cons_Inr)
  show ?case
  proof (cases "i < length blk")
    case True
    with Cons.prems(3) o have "is_human (blk ! i)" by (simp add: nth_append)
    from block_human_first[OF b True this] walk_mono[OF w]
    show ?thesis unfolding o by auto
  next
    case False
    then have h: "i - length blk < length later" "is_human (later ! (i - length blk))"
      using Cons.prems(2,3) o by (auto simp: nth_append)
    from Cons.IH[OF w h] obtain k where
      k: "Suc (i - length blk) < length later" "c1 \<le> k" "k < c'"
         "later ! Suc (i - length blk) = progressAIMessage (uuidv4 k)"
      by blast
    have "c \<le> k" using callback_mono[OF b] k(2) by simp
    moreover have "out ! Suc i = later ! Suc (i - length blk)"
      using False unfolding o by (simp add: nth_append Suc_diff_le)
    moreover have "Suc i < length out" using k(1) False unfolding o by simp
    ultimately show ?thesis using k(3,4) by auto
  qed
qed

lemma walk_progress_preceded:
  "walk uuidv4 tv raw c = Inr (out, c') \<Longrightarrow> j < length out \<Longrightarrow> is_progress (out ! j) \<Longrightarrow>
   0 < j \<and> is_human (out ! (j - 1))"
proof (induction raw arbitrary: c out c' j)
  case Nil
  then show ?case by simp
next
  case (Cons msg rest)
  from Cons.prems(1) obtain blk c1 later where
    b: "callback uuidv4 tv msg 0 (msg # rest) c = Inr (blk, c1)"
    and w: "walk uuidv4 tv rest c1 = Inr (later, c')" and o: "out = blk @ later"
    by (rule walk_Cons_Inr)
  show ?case
  proof (cases "j < length blk")
    case True
    with Cons.prems(3) o have "is_progress (blk ! j)" by (simp add: nth_append)
    from block_progress_second[OF b True this]
    show ?thesis unfolding o by auto
  next
    case False
    then have h: "j - length blk < length later" "is_progress (later ! (j - length blk))"
      using Cons.prems(2,3) o by (auto simp: nth_append)
    from Cons.IH[OF w h] False
    show ?thesis unfolding o by (auto simp: nth_append)
  qed
qed

section \<open>Counting answer headers\<close>

lemma lastAiBlock_one_header:
  assumes "lastAiBlock uuidv4 tv msg c = (out, c1)" and "is_ai_entry msg"
  shows "count_answer_headers out = 1"
proof -
  from assms(2) have "''type'' \<in> fst ` set (with_content msg)"
    by (simp add: is_ai_entry_def typed_has_type_key)
  then have "\<not> is_answer_header (AIMessage (with_content msg))"
    by (rule passthrough_not_answer_header)
  with assms(1) show ?thesis
    by (auto simp: lastAiBlock_def Let_def count_answer_headers_def is_answer_header_def
          routerMessage_def selectedDocumentsAIMessage_def answerHeaderToolMsg_def tool_call_def
          split: if_splits)
qed

lemma block_headers:
  assumes "callback uuidv4 tv msg 0 (msg # rest) c = Inr (out, c1)"
  shows "count_answer_headers out =
     (if is_ai_entry msg \<and> (rest = [] \<or> is_human_entry (hd rest)) then 1 else 0)"
  using assms
proof (cases rule: callback_cases)
  case human
  then show ?thesis
    by (auto simp: count_answer_headers_def is_answer_header_def answerHeaderToolMsg_def
          progressAIMessage_def is_human_entry_def is_ai_entry_def)
next
  case terminal
  then show ?thesis by (simp add: lastAiBlock_one_header)
next
  case inner
  from inner(1) have "''type'' \<in> fst ` set (with_content msg)"
    by (simp add: is_ai_entry_def typed_has_type_key)
  with inner show ?thesis
    by (simp add: count_answer_headers_def passthrough_not_answer_header)
next
  case other
  then show ?thesis by (simp add: count_answer_headers_def)
qed

lemma walk_headers:
  "walk uuidv4 tv raw c = Inr (out, c') \<Longrightarrow> count_answer_headers out = terminal_count raw"
proof (induction raw arbitrary: c out c')
  case Nil
  then show ?case by (simp add: count_answer_headers_def)
next
  case (Cons msg rest)
  from Cons.prems obtain blk c1 later where
    b: "callback uuidv4 tv msg 0 (msg # rest) c = Inr (blk, c1)"
    and w: "walk uuidv4 tv rest c1 = Inr (later, c')" and o: "out = blk @ later"
    by (rule walk_Cons_Inr)
  have "count_answer_headers out = count_answer_headers blk + count_answer_headers later"
    unfolding o by (simp add: count_answer_headers_def)
  then show ?case using block_headers[OF b] Cons.IH[OF w] by simp
qed

lemma terminal_count_runs:
  "ai_successors_recognised raw \<Longrightarrow> terminal_count raw = ai_runs raw"
proof (induction raw rule: ai_runs.induct)
  case 1
  then show ?case by simp
next
  case (2 m)
  then show ?case by simp
next
  case (3 m n rest)
  then show ?case by (auto simp: is_human_entry_def is_ai_entry_def)
qed

lemma terminal_count_index:
  "terminal_count array = length (filter (terminal_at array) [0..<length array])"
proof (induction array)
  case Nil
  then show ?case by simp
next
  case (Cons msg rest)
  have shift: "\<And>i. i < length rest \<Longrightarrow> terminal_at (msg # rest) (Suc i) = terminal_at rest i"
    by (simp add: terminal_at_def)
  have "[0..<length (msg # rest)] = 0 # map Suc [0..<length rest]"
    by (simp add: upt_conv_Cons map_Suc_upt del: upt_Suc)
  then have "length (filter (terminal_at (msg # rest)) [0..<length (msg # rest)])
      = (if terminal_at (msg # rest) 0 then 1 else 0)
        + length (filter (\<lambda>i. terminal_at (msg # rest) (Suc i)) [0..<length rest])"
    by (simp add: filter_map comp_def del: upt_Suc)
  also have "filter (\<lambda>i. terminal_at (msg # rest) (Suc i)) [0..<length rest]
      = filter (terminal_at rest) [0..<length rest]"
    by (rule filter_cong) (simp_all add: shift)
  also have "terminal_at (msg # rest) 0 \<longleftrightarrow> is_ai_entry msg \<and> (rest = [] \<or> is_human_entry (hd rest))"
    by (cases rest) (auto simp: terminal_at_def)
  finally show ?case using Cons.IH by simp
qed

section \<open>The ids are the only trace of \<^verbatim>\<open>uuidv4\<close>\<close>

lemma lastAiBlock_erase:
  "map erase_id (fst (lastAiBlock u1 tv msg c1)) = map erase_id (fst (lastAiBlock u2 tv msg c2))"
  by (simp add: lastAiBlock_def Let_def routerMessage_def selectedDocumentsAIMessage_def)

lemma callback_erase:
  "map_sum id (map erase_id \<circ> fst) (callback u1 tv msg i array c1)
   = map_sum id (map erase_id \<circ> fst) (callback u2 tv msg i array c2)"
  using lastAiBlock_erase[of u1 tv msg c1 u2 c2]
  by (auto simp: callback_def progressAIMessage_def split: sum.splits)

lemma walk_erase:
  "map_sum id (map erase_id \<circ> fst) (walk u1 tv raw c1)
   = map_sum id (map erase_id \<circ> fst) (walk u2 tv raw c2)"
proof (induction raw arbitrary: c1 c2)
  case Nil
  then show ?case by simp
next
  case (Cons msg rest)
  show ?case
  proof (cases "callback u1 tv msg 0 (msg # rest) c1")
    case (Inl e)
    with callback_erase[of u1 tv msg 0 "msg # rest" c1 u2 c2] show ?thesis
      by (auto split: sum.splits)
  next
    case (Inr r1)
    then obtain b1 d1 where r1: "callback u1 tv msg 0 (msg # rest) c1 = Inr (b1, d1)"
      by (cases r1) auto
    with callback_erase[of u1 tv msg 0 "msg # rest" c1 u2 c2]
    obtain b2 d2 where r2: "callback u2 tv msg 0 (msg # rest) c2 = Inr (b2, d2)"
      and e: "map erase_id b1 = map erase_id b2"
      by (cases "callback u2 tv msg 0 (msg # rest) c2") auto
    from Cons.IH[of d1 d2] r1 r2 e show ?thesis
      by (auto split: sum.splits)
  qed
qed

subsection \<open>The terminal entry of the specification and the test of the source\<close>

lemma terminal_is_last_assistant:
  assumes "index < length array" and "terminal_at array index"
  shows "last_assistant_of_exchange array index"
proof -
  from assms(2) have ai: "is_ai_entry (array ! index)"
    and nxt: "Suc index = length array \<or> (Suc index < length array \<and> is_human_entry (array ! Suc index))"
    by (simp_all add: terminal_at_def)
  from nxt have "no_ai_before_human (drop (Suc index) array)"
  proof
    assume "Suc index = length array"
    then show ?thesis by simp
  next
    assume h: "Suc index < length array \<and> is_human_entry (array ! Suc index)"
    then have "drop (Suc index) array = array ! Suc index # drop (Suc (Suc index)) array"
      by (simp add: Cons_nth_drop_Suc)
    with h show ?thesis by simp
  qed
  with assms(1) ai show ?thesis by (simp add: last_assistant_of_exchange_def)
qed

lemma ai_successor_recognised:
  "ai_successors_recognised array \<Longrightarrow> Suc index < length array \<Longrightarrow> is_ai_entry (array ! index) \<Longrightarrow>
   is_ai_entry (array ! Suc index) \<or> is_human_entry (array ! Suc index)"
proof (induction array arbitrary: index rule: ai_successors_recognised.induct)
  case 1
  then show ?case by simp
next
  case (2 m)
  then show ?case by simp
next
  case (3 m n rest)
  show ?case
  proof (cases index)
    case 0
    with "3.prems" show ?thesis by (simp split: if_splits)
  next
    case (Suc k)
    with "3.prems" "3.IH"[of k] show ?thesis by simp
  qed
qed

lemma last_assistant_is_terminal:
  assumes "ai_successors_recognised array" and "last_assistant_of_exchange array index"
  shows "terminal_at array index"
proof (cases "Suc index = length array")
  case True
  with assms(2) show ?thesis by (simp add: terminal_at_def last_assistant_of_exchange_def)
next
  case False
  with assms(2) have lt: "Suc index < length array" and ai: "is_ai_entry (array ! index)"
    and no: "no_ai_before_human (drop (Suc index) array)"
    by (simp_all add: last_assistant_of_exchange_def)
  have "drop (Suc index) array = array ! Suc index # drop (Suc (Suc index)) array"
    using lt by (simp add: Cons_nth_drop_Suc)
  with no have "is_human_entry (array ! Suc index) \<or> \<not> is_ai_entry (array ! Suc index)"
    by (simp split: if_splits)
  with ai_successor_recognised[OF assms(1) lt ai] have "is_human_entry (array ! Suc index)"
    by blast
  with lt ai show ?thesis by (simp add: terminal_at_def)
qed

subsection \<open>The count of \<^verbatim>\<open>uuidv4()\<close> calls of a walk that returns\<close>

lemma flatMap_uuids_returned:
  "flatMap_loop f is c = Inr (out, c') \<Longrightarrow> flatMap_uuids f is c = c'"
  by (induction "is" arbitrary: c out c') (auto split: sum.splits prod.splits)

lemma actualMessages_uuids_returned:
  "actualMessages uuidv4 tv c = Inr (out, c') \<Longrightarrow> actualMessages_uuids uuidv4 tv c = c'"
  by (auto simp: actualMessages_def actualMessages_uuids_def flatMap_def
        split: json.splits dest: flatMap_uuids_returned)

section \<open>Auxiliary facts on values and samples\<close>

lemma opt_length_list: "list_or_absent d \<Longrightarrow> truthy (opt_length d) = nonempty_list d"
  by (cases d rule: nonempty_list.cases) (auto simp: opt_length_def)

lemma lastAiBlock_typed:
  assumes "list_or_absent (get_prop tv ''documents'')"
  shows "lastAiBlock uuidv4 tv msg c =
     ((if truthy (get_prop tv ''router'')
       then [routerMessage (uuidv4 c) (get_prop tv ''router'')] else []) @
      (if nonempty_list (get_prop tv ''documents'')
       then [selectedDocumentsAIMessage
               (uuidv4 (if truthy (get_prop tv ''router'') then Suc c else c))
               (get_prop tv ''documents'')]
       else []) @
      [answerHeaderToolMsg, AIMessage (with_content msg)],
      c + (if truthy (get_prop tv ''router'') then 1 else 0)
        + (if nonempty_list (get_prop tv ''documents'') then 1 else 0))"
  by (simp add: lastAiBlock_def Let_def opt_length_list[OF assms])

lemma json_size_member: "(k, v) \<in> set kvs \<Longrightarrow> size v < size (JObj kvs)"
  by (induction kvs) auto

lemma truthy_answer_differs:
  assumes "truthy (get_prop response ''answer'')"
  shows "get_prop response ''answer'' \<noteq> response"
proof (cases response)
  case (JObj kvs)
  with assms obtain v where v: "map_of kvs ''answer'' = Some v" "get_prop response ''answer'' = v"
    by (auto split: option.splits)
  from v(1) have "(''answer'', v) \<in> set kvs" by (rule map_of_SomeD)
  then have "size v < size (JObj kvs)" by (rule json_size_member)
  with JObj v(2) show ?thesis by auto
qed (use assms in auto)

lemma sendChat_rejects:
  "fetch msgs model = FetchRejected \<Longrightarrow> sendChat fetch msgs model = Inl NetworkError"
  "fetch msgs model = Response False body \<Longrightarrow> sendChat fetch msgs model = Inl ChatApiError"
  "fetch msgs model = Response True None \<Longrightarrow> sendChat fetch msgs model = Inl JsonSyntaxError"
  by (simp_all add: sendChat_def)

lemma inj_sample_uuid: "inj sample_uuid"
proof (rule injI)
  fix x y assume "sample_uuid x = sample_uuid y"
  then have "length (sample_uuid x) = length (sample_uuid y)" by simp
  then show "x = y" by (simp add: sample_uuid_def)
qed

lemma scenario_eval:
  "actualMessages uuidv4 scenario_snapshot c =
     Inr ([HumanMessage [(''type'', JStr ''human''), (''content'', JStr ''Q'')],
           progressAIMessage (uuidv4 c),
           routerMessage (uuidv4 (Suc c)) (JObj [(''decision'', JStr ''docs'')]),
           selectedDocumentsAIMessage (uuidv4 (Suc (Suc c)))
             (JArr [JObj [(''metadata'', JObj [(''source'', JStr ''x'')])]]),
           answerHeaderToolMsg,
           AIMessage [(''type'', JStr ''ai''), (''content'', JStr ''A'')]],
          Suc (Suc (Suc c)))"
  by (simp add: actualMessages_walk scenario_snapshot_def callback_def js_get_def
        isLastAiMessage_def js_index_def lastAiBlock_def Let_def opt_length_def with_content_def)

lemma scenario_sample:
  "actualMessages sample_uuid scenario_snapshot 0 =
     Inr ([HumanMessage [(''type'', JStr ''human''), (''content'', JStr ''Q'')],
           progressAIMessage ''u'',
           routerMessage ''uu'' (JObj [(''decision'', JStr ''docs'')]),
           selectedDocumentsAIMessage ''uuu''
             (JArr [JObj [(''metadata'', JObj [(''source'', JStr ''x'')])]]),
           answerHeaderToolMsg,
           AIMessage [(''type'', JStr ''ai''), (''content'', JStr ''A'')]], 3)"
  by (simp add: scenario_eval sample_uuid_def numeral_3_eq_3)

section \<open>The claims\<close>

subsection \<open>Reconstruction\<close>

text \<open>
  Claim C1, as the code has it. For an \<^verbatim>\<open>ai\<close> entry that is the last entry of the raw
  array or is directly followed by a \<^verbatim>\<open>human\<close> entry, the callback returns, in this order:
  the router marker carrying \<^verbatim>\<open>threadValues.router\<close> exactly when that value is truthy;
  the selected-documents marker carrying \<^verbatim>\<open>{ documents: threadValues.documents }\<close>
  exactly when the documents are a non-empty list; the answer-header marker, always; and the
  entry itself as an assistant message with its own content. Such an entry is the last
  assistant entry before the next human entry or the end of the list. The documents are
  taken to be a list or absent, as the snapshot's shape \<^verbatim>\<open>documents?: object[]\<close> says.
  The last conjunct is the scenario of the specification: the snapshot with one human entry
  "Q", one ai entry "A", a router decision and one document reconstructs to Human("Q"),
  progress, router, selected documents, answer header, Assistant("A").
\<close>

theorem terminal_entry_markers:
  assumes "index < length array"
    and "terminal_at array index"
    and "list_or_absent (get_prop threadValues ''documents'')"
  shows "callback uuidv4 threadValues (array ! index) index array c =
     Inr ((if truthy (get_prop threadValues ''router'')
           then [routerMessage (uuidv4 c) (get_prop threadValues ''router'')] else []) @
          (if nonempty_list (get_prop threadValues ''documents'')
           then [selectedDocumentsAIMessage
                   (uuidv4 (if truthy (get_prop threadValues ''router'') then Suc c else c))
                   (get_prop threadValues ''documents'')]
           else []) @
          [answerHeaderToolMsg, AIMessage (with_content (array ! index))],
          c + (if truthy (get_prop threadValues ''router'') then 1 else 0)
            + (if nonempty_list (get_prop threadValues ''documents'') then 1 else 0))
   \<and> last_assistant_of_exchange array index
   \<and> marker_name (routerMessage (uuidv4 c) (get_prop threadValues ''router'')) = JStr ''router_logic''
   \<and> marker_args (routerMessage (uuidv4 c) (get_prop threadValues ''router''))
        = get_prop threadValues ''router''
   \<and> marker_name (selectedDocumentsAIMessage u (get_prop threadValues ''documents''))
        = JStr ''selected_documents''
   \<and> marker_args (selectedDocumentsAIMessage u (get_prop threadValues ''documents''))
        = JObj [(''documents'', get_prop threadValues ''documents'')]
   \<and> marker_name answerHeaderToolMsg = JStr ''answer_header''
   \<and> message_content (AIMessage (with_content (array ! index)))
        = get_prop (array ! index) ''content''
   \<and> actualMessages uuidv4 scenario_snapshot c =
       Inr ([HumanMessage [(''type'', JStr ''human''), (''content'', JStr ''Q'')],
             progressAIMessage (uuidv4 c),
             routerMessage (uuidv4 (Suc c)) (JObj [(''decision'', JStr ''docs'')]),
             selectedDocumentsAIMessage (uuidv4 (Suc (Suc c)))
               (JArr [JObj [(''metadata'', JObj [(''source'', JStr ''x'')])]]),
             answerHeaderToolMsg,
             AIMessage [(''type'', JStr ''ai''), (''content'', JStr ''A'')]],
            Suc (Suc (Suc c)))"
proof -
  have "callback uuidv4 threadValues (array ! index) index array c
          = Inr (lastAiBlock uuidv4 threadValues (array ! index) c)"
    using assms(1,2) by (rule callback_terminal)
  moreover have "last_assistant_of_exchange array index"
    using assms(1,2) by (rule terminal_is_last_assistant)
  ultimately show ?thesis
    by (simp add: lastAiBlock_typed[OF assms(3)] scenario_eval marker_name_def marker_args_def
          tool_calls_def routerMessage_def selectedDocumentsAIMessage_def answerHeaderToolMsg_def
          tool_call_def message_content_passthrough)
qed

theorem terminal_entry_markers_witness:
  "1 < length [JObj [(''type'', JStr ''human''), (''content'', JStr ''Q'')],
               JObj [(''type'', JStr ''ai''), (''content'', JStr ''A'')]]
   \<and> terminal_at [JObj [(''type'', JStr ''human''), (''content'', JStr ''Q'')],
                   JObj [(''type'', JStr ''ai''), (''content'', JStr ''A'')]] 1
   \<and> list_or_absent (get_prop scenario_snapshot ''documents'')
   \<and> callback sample_uuid scenario_snapshot (JObj [(''type'', JStr ''ai''), (''content'', JStr ''A'')]) 1
        [JObj [(''type'', JStr ''human''), (''content'', JStr ''Q'')],
         JObj [(''type'', JStr ''ai''), (''content'', JStr ''A'')]] 1
      = Inr ([routerMessage ''uu'' (JObj [(''decision'', JStr ''docs'')]),
              selectedDocumentsAIMessage ''uuu''
                (JArr [JObj [(''metadata'', JObj [(''source'', JStr ''x'')])]]),
              answerHeaderToolMsg,
              AIMessage [(''type'', JStr ''ai''), (''content'', JStr ''A'')]], 3)"
proof -
  let ?array = "[JObj [(''type'', JStr ''human''), (''content'', JStr ''Q'')],
                 JObj [(''type'', JStr ''ai''), (''content'', JStr ''A'')]]"
  have h1: "1 < length ?array" by simp
  have h2: "terminal_at ?array 1"
    by (simp add: terminal_at_def is_ai_entry_def js_get_def)
  have h3: "list_or_absent (get_prop scenario_snapshot ''documents'')"
    by (simp add: scenario_snapshot_def)
  show ?thesis
    using h1 h2 h3 terminal_entry_markers[OF h1 h2 h3, of sample_uuid 1 "''u''"]
    by (simp add: scenario_snapshot_def sample_uuid_def with_content_def)
qed

text \<open>
  Claim C1 as stated fails: in the raw list of a \<^verbatim>\<open>human\<close> entry "Q", an \<^verbatim>\<open>ai\<close> entry
  "A" and a \<^verbatim>\<open>system\<close> entry "S", with a router decision and one document, "A" is the last
  assistant entry before the end of the list, yet its successor is not a \<^verbatim>\<open>human\<close> entry
  and it is not the last entry, so it is copied alone: no router marker, no
  selected-documents marker and no answer header.
\<close>

theorem terminal_entry_markers_counterexample:
  "last_assistant_of_exchange [raw_human ''Q'', raw_ai ''A'', raw_system ''S''] 1
   \<and> truthy (get_prop trailing_system_snapshot ''router'')
   \<and> nonempty_list (get_prop trailing_system_snapshot ''documents'')
   \<and> get_prop trailing_system_snapshot ''messages''
        = JArr [raw_human ''Q'', raw_ai ''A'', raw_system ''S'']
   \<and> callback sample_uuid trailing_system_snapshot (raw_ai ''A'') 1
        [raw_human ''Q'', raw_ai ''A'', raw_system ''S''] 1
      = Inr ([AIMessage [(''type'', JStr ''ai''), (''content'', JStr ''A'')]], 1)
   \<and> actualMessages sample_uuid trailing_system_snapshot 0
      = Inr ([HumanMessage [(''type'', JStr ''human''), (''content'', JStr ''Q'')],
              progressAIMessage ''u'',
              AIMessage [(''type'', JStr ''ai''), (''content'', JStr ''A'')]], 1)"
  by (simp add: last_assistant_of_exchange_def trailing_system_snapshot_def actualMessages_walk
        callback_def js_get_def raw_ai_def raw_human_def raw_system_def isLastAiMessage_def
        js_index_def with_content_def is_ai_entry_def is_human_entry_def sample_uuid_def)

text \<open>
  Claim C2. In every timeline the reconstruction returns, a human message is directly
  followed by a progress marker with a generated id, whose payload is \<^verbatim>\<open>{ step: 4 }\<close>,
  and the entry after that marker, if there is one, is not a progress marker. Conversely a
  progress marker only ever stands directly after a human message, so each human message
  has exactly one. \<open>nodeToStep\<close> numbers the running steps from 0 to 3; step 4 lies past
  all of them and is the value the source sets for "done".
\<close>

theorem human_followed_by_progress:
  assumes "actualMessages uuidv4 threadValues c = Inr (out, c')"
  shows "(\<forall>i<length out. is_human (out ! i) \<longrightarrow>
            Suc i < length out
          \<and> (\<exists>k. c \<le> k \<and> k < c' \<and> out ! Suc i = progressAIMessage (uuidv4 k))
          \<and> marker_name (out ! Suc i) = JStr ''progress''
          \<and> marker_args (out ! Suc i) = JObj [(''step'', JNum 4)]
          \<and> (Suc (Suc i) < length out \<longrightarrow> \<not> is_progress (out ! Suc (Suc i))))
       \<and> (\<forall>j<length out. is_progress (out ! j) \<longrightarrow> 0 < j \<and> is_human (out ! (j - 1)))
       \<and> (\<forall>node. nodeToStep node < 4)"
proof -
  from assms obtain array where w: "walk uuidv4 threadValues array c = Inr (out, c')"
    by (rule actualMessages_InrD)
  have after: "Suc i < length out
          \<and> (\<exists>k. c \<le> k \<and> k < c' \<and> out ! Suc i = progressAIMessage (uuidv4 k))
          \<and> marker_name (out ! Suc i) = JStr ''progress''
          \<and> marker_args (out ! Suc i) = JObj [(''step'', JNum 4)]
          \<and> (Suc (Suc i) < length out \<longrightarrow> \<not> is_progress (out ! Suc (Suc i)))"
    if i: "i < length out" "is_human (out ! i)" for i
  proof -
    from walk_human_followed[OF w i] obtain k where
      k: "Suc i < length out" "c \<le> k" "k < c'" "out ! Suc i = progressAIMessage (uuidv4 k)"
      by blast
    have "\<not> is_progress (out ! Suc (Suc i))" if "Suc (Suc i) < length out"
    proof
      assume "is_progress (out ! Suc (Suc i))"
      from walk_progress_preceded[OF w that this] have "is_human (out ! Suc i)" by simp
      with k(4) show False by (simp add: progressAIMessage_def)
    qed
    with k show ?thesis by (auto simp: progress_marker_view)
  qed
  have before: "0 < j \<and> is_human (out ! (j - 1))"
    if "j < length out" "is_progress (out ! j)" for j
    using walk_progress_preceded[OF w that] .
  have steps: "nodeToStep node < 4" for node
    by (simp add: nodeToStep_def)
  from after before steps show ?thesis by blast
qed

theorem human_followed_by_progress_witness:
  "actualMessages sample_uuid scenario_snapshot 0 =
     Inr ([HumanMessage [(''type'', JStr ''human''), (''content'', JStr ''Q'')],
           progressAIMessage ''u'',
           routerMessage ''uu'' (JObj [(''decision'', JStr ''docs'')]),
           selectedDocumentsAIMessage ''uuu''
             (JArr [JObj [(''metadata'', JObj [(''source'', JStr ''x'')])]]),
           answerHeaderToolMsg,
           AIMessage [(''type'', JStr ''ai''), (''content'', JStr ''A'')]], 3)
   \<and> marker_args (progressAIMessage ''u'') = JObj [(''step'', JNum 4)]
   \<and> \<not> is_progress (routerMessage ''uu'' (JObj [(''decision'', JStr ''docs'')]))"
proof -
  note e = scenario_sample
  note first = human_followed_by_progress[OF e, THEN conjunct1, THEN spec, of 0]
  from first show ?thesis
    using e by simp
qed

text \<open>
  Claim C3, as the code has it. An \<^verbatim>\<open>ai\<close> entry gets the block of a terminal entry
  exactly when it is the last entry of the raw array or its immediate successor in the raw
  array is a \<^verbatim>\<open>human\<close> entry; the number of answer-header markers of the timeline is the
  number of these entries; and it is the number of maximal contiguous runs of \<^verbatim>\<open>ai\<close>
  entries whenever no \<^verbatim>\<open>ai\<close> entry is directly followed by an entry that is neither a
  \<^verbatim>\<open>human\<close> nor an \<^verbatim>\<open>ai\<close> entry.
\<close>

theorem answer_headers_count:
  assumes "get_prop threadValues ''messages'' = JArr array"
    and "actualMessages uuidv4 threadValues c = Inr (out, c')"
  shows "(\<forall>index<length array. is_ai_entry (array ! index) \<longrightarrow>
            (callback uuidv4 threadValues (array ! index) index array c
               = Inr (lastAiBlock uuidv4 threadValues (array ! index) c)
             \<longleftrightarrow> terminal_at array index))
       \<and> count_answer_headers out = length (filter (terminal_at array) [0..<length array])
       \<and> (ai_successors_recognised array \<longrightarrow> count_answer_headers out = ai_runs array)"
proof -
  from assms have w: "walk uuidv4 threadValues array c = Inr (out, c')"
    by (simp add: actualMessages_walk)
  have t: "callback uuidv4 threadValues (array ! index) index array c
               = Inr (lastAiBlock uuidv4 threadValues (array ! index) c)
           \<longleftrightarrow> terminal_at array index"
    if "index < length array" "is_ai_entry (array ! index)" for index
  proof
    assume "terminal_at array index"
    with that(1) show "callback uuidv4 threadValues (array ! index) index array c
               = Inr (lastAiBlock uuidv4 threadValues (array ! index) c)"
      by (rule callback_terminal)
  next
    assume a: "callback uuidv4 threadValues (array ! index) index array c
               = Inr (lastAiBlock uuidv4 threadValues (array ! index) c)"
    have "isLastAiMessage index array = Inr True"
    proof (cases "isLastAiMessage index array")
      case (Inl e)
      with a that(2) show ?thesis by (simp add: callback_def is_ai_entry_def)
    next
      case (Inr b)
      with a that(2) show ?thesis
        by (cases b) (auto simp: callback_def is_ai_entry_def lastAiBlock_def Let_def)
    qed
    with that show "terminal_at array index"
      by (simp add: terminal_at_def isLastAiMessage_terminal)
  qed
  have n: "count_answer_headers out = length (filter (terminal_at array) [0..<length array])"
    using walk_headers[OF w] by (simp add: terminal_count_index)
  have r: "count_answer_headers out = ai_runs array"
    if "ai_successors_recognised array"
    using walk_headers[OF w] terminal_count_runs[OF that] by simp
  from t n r show ?thesis by blast
qed

theorem answer_headers_count_witness:
  "get_prop (JObj [(''messages'', JArr [raw_system ''S'', raw_human ''Q'', raw_ai ''A'', raw_ai ''B''])])
       ''messages''
     = JArr [raw_system ''S'', raw_human ''Q'', raw_ai ''A'', raw_ai ''B'']
   \<and> actualMessages sample_uuid
       (JObj [(''messages'', JArr [raw_system ''S'', raw_human ''Q'', raw_ai ''A'', raw_ai ''B''])]) 0
     = Inr ([HumanMessage [(''type'', JStr ''human''), (''content'', JStr ''Q'')],
             progressAIMessage ''u'',
             AIMessage [(''type'', JStr ''ai''), (''content'', JStr ''A'')],
             answerHeaderToolMsg,
             AIMessage [(''type'', JStr ''ai''), (''content'', JStr ''B'')]], 1)
   \<and> ai_successors_recognised [raw_system ''S'', raw_human ''Q'', raw_ai ''A'', raw_ai ''B'']
   \<and> count_answer_headers
        [HumanMessage [(''type'', JStr ''human''), (''content'', JStr ''Q'')],
         progressAIMessage ''u'',
         AIMessage [(''type'', JStr ''ai''), (''content'', JStr ''A'')],
         answerHeaderToolMsg,
         AIMessage [(''type'', JStr ''ai''), (''content'', JStr ''B'')]]
       = ai_runs [raw_system ''S'', raw_human ''Q'', raw_ai ''A'', raw_ai ''B'']
   \<and> ai_runs [raw_system ''S'', raw_human ''Q'', raw_ai ''A'', raw_ai ''B''] = 1"
proof -
  let ?raw = "[raw_system ''S'', raw_human ''Q'', raw_ai ''A'', raw_ai ''B'']"
  let ?tv = "JObj [(''messages'', JArr ?raw)]"
  have h1: "get_prop ?tv ''messages'' = JArr ?raw"
    by simp
  have h2: "actualMessages sample_uuid ?tv 0
     = Inr ([HumanMessage [(''type'', JStr ''human''), (''content'', JStr ''Q'')],
             progressAIMessage ''u'',
             AIMessage [(''type'', JStr ''ai''), (''content'', JStr ''A'')],
             answerHeaderToolMsg,
             AIMessage [(''type'', JStr ''ai''), (''content'', JStr ''B'')]], 1)"
    by (simp add: actualMessages_walk callback_def js_get_def raw_ai_def raw_human_def
        raw_system_def isLastAiMessage_def js_index_def with_content_def lastAiBlock_def Let_def
        opt_length_def sample_uuid_def)
  have h3: "ai_successors_recognised ?raw"
    by (simp add: raw_ai_def raw_human_def raw_system_def is_human_entry_def is_ai_entry_def
        js_get_def)
  have r: "ai_runs ?raw = 1"
    by (simp add: raw_ai_def raw_human_def raw_system_def is_ai_entry_def js_get_def)
  note c3 = answer_headers_count[OF h1 h2, THEN conjunct2, THEN conjunct2, THEN mp, OF h3]
  from c3 h1 h2 h3 r show ?thesis by simp
qed

text \<open>
  Claim C3 as stated fails: in the raw list of an \<^verbatim>\<open>ai\<close> entry followed by a
  \<^verbatim>\<open>system\<close> entry, the \<^verbatim>\<open>ai\<close> entry is the last assistant entry before the end of
  the list and the list has one run of \<^verbatim>\<open>ai\<close> entries, yet the entry is copied without
  markers and the timeline has no answer header.
\<close>

theorem answer_headers_count_counterexample:
  "actualMessages sample_uuid (JObj [(''messages'', JArr [raw_ai ''A'', raw_system ''S''])]) 0
     = Inr ([AIMessage [(''type'', JStr ''ai''), (''content'', JStr ''A'')]], 0)
   \<and> count_answer_headers [AIMessage [(''type'', JStr ''ai''), (''content'', JStr ''A'')]] = 0
   \<and> ai_runs [raw_ai ''A'', raw_system ''S''] = 1"
  by (simp add: actualMessages_walk callback_def js_get_def raw_ai_def raw_system_def
        isLastAiMessage_def js_index_def with_content_def count_answer_headers_def
        is_answer_header_def answerHeaderToolMsg_def is_ai_entry_def)

text \<open>
  Claim C7. The timeline depends on the results of \<^verbatim>\<open>uuidv4()\<close> through the ids of its
  messages only: two reconstructions of one snapshot, with any two sequences of generated
  ids, fail alike or return timelines that are equal entry by entry once the ids are
  erased. The reconstruction is a function of the snapshot and of the generated ids; it
  assigns to no part of the snapshot, which the model therefore never returns changed.
\<close>

theorem reconstruction_modulo_ids:
  "modulo_ids (actualMessages uuidv4 threadValues c)
     = modulo_ids (actualMessages uuidv4' threadValues c')"
  unfolding modulo_ids_def actualMessages_walk
  by (cases "get_prop threadValues ''messages''") (simp_all add: walk_erase)

theorem reconstruction_modulo_ids_witness:
  "modulo_ids (actualMessages sample_uuid scenario_snapshot 0)
     = modulo_ids (actualMessages (\<lambda>n. ''id-'' @ sample_uuid n) scenario_snapshot 7)
   \<and> modulo_ids (actualMessages sample_uuid scenario_snapshot 0)
     = Inr [HumanMessage [(''type'', JStr ''human''), (''content'', JStr ''Q'')],
            erase_id (progressAIMessage ''''),
            erase_id (routerMessage '''' (JObj [(''decision'', JStr ''docs'')])),
            erase_id (selectedDocumentsAIMessage ''''
               (JArr [JObj [(''metadata'', JObj [(''source'', JStr ''x'')])]])),
            answerHeaderToolMsg,
            AIMessage [(''type'', JStr ''ai''), (''content'', JStr ''A'')]]"
  using reconstruction_modulo_ids[of sample_uuid scenario_snapshot 0 "\<lambda>n. ''id-'' @ sample_uuid n" 7]
  by (simp add: scenario_eval modulo_ids_def progressAIMessage_def routerMessage_def
        selectedDocumentsAIMessage_def answerHeaderToolMsg_def)

text \<open>
  Claim C8. For a raw entry whose type is neither \<^verbatim>\<open>"human"\<close> nor \<^verbatim>\<open>"ai"\<close> the
  callback returns the empty array and draws no id: the entry yields no message and no
  marker. A raw array of such entries only reconstructs to the empty timeline, not to an
  error.
\<close>

theorem unrecognised_entries_dropped:
  "(\<forall>index<length array. unrecognised (array ! index) \<longrightarrow>
       callback uuidv4 threadValues (array ! index) index array c = Inr ([], c))
   \<and> (get_prop threadValues ''messages'' = JArr array \<and> (\<forall>m \<in> set array. unrecognised m) \<longrightarrow>
       actualMessages uuidv4 threadValues c = Inr ([], c))"
proof -
  have one: "callback uuidv4 threadValues msg index array c = Inr ([], c)"
    if "unrecognised msg" for msg index
    using that by (auto simp: callback_def unrecognised_def split: sum.splits)
  have all: "actualMessages uuidv4 threadValues c = Inr ([], c)"
    if m: "get_prop threadValues ''messages'' = JArr array" and u: "\<forall>m \<in> set array. unrecognised m"
  proof -
    from u have "\<forall>m \<in> set array. \<not> nullish m \<and> \<not> is_human_entry m \<and> \<not> is_ai_entry m"
      by (auto simp: unrecognised_def js_get_def is_human_entry_def is_ai_entry_def
            split: sum.splits if_splits)
    then have "walk uuidv4 threadValues array c = Inr ([], c)" by (rule walk_unrecognised)
    with m show ?thesis by (simp add: actualMessages_walk)
  qed
  from one all show ?thesis by blast
qed

theorem unrecognised_entries_dropped_witness:
  "unrecognised (raw_system ''S'') \<and> unrecognised (JObj [(''content'', JStr ''no type'')])
   \<and> actualMessages sample_uuid
        (JObj [(''messages'', JArr [raw_system ''S'', JObj [(''content'', JStr ''no type'')]]),
               (''router'', JObj [(''decision'', JStr ''docs'')])]) 0 = Inr ([], 0)
   \<and> callback sample_uuid scenario_snapshot (raw_system ''S'') 1
        [raw_human ''Q'', raw_system ''S'', raw_ai ''A''] 5 = Inr ([], 5)"
proof -
  let ?array = "[raw_system ''S'', JObj [(''content'', JStr ''no type'')]]"
  let ?tv = "JObj [(''messages'', JArr ?array), (''router'', JObj [(''decision'', JStr ''docs'')])]"
  have u1: "unrecognised (raw_system ''S'')"
    by (simp add: unrecognised_def raw_system_def js_get_def)
  have u2: "unrecognised (JObj [(''content'', JStr ''no type'')])"
    by (simp add: unrecognised_def js_get_def)
  have h: "get_prop ?tv ''messages'' = JArr ?array \<and> (\<forall>m \<in> set ?array. unrecognised m)"
    using u1 u2 by simp
  note whole = unrecognised_entries_dropped[of ?array sample_uuid ?tv 0, THEN conjunct2, THEN mp, OF h]
  note single = unrecognised_entries_dropped[of "[raw_human ''Q'', raw_system ''S'', raw_ai ''A'']"
      sample_uuid scenario_snapshot 5, THEN conjunct1, THEN spec, of 1]
  from whole single u1 u2 show ?thesis by simp
qed

text \<open>
  Claim C10 fails on the answer header. The snapshot with the single raw entry
  \<^verbatim>\<open>{type: "ai", content: "A"}\<close> reconstructs to the answer-header marker and the
  assistant message; the marker is built without an \<^verbatim>\<open>id\<close> field, while the progress,
  router and selected-documents markers are each built with \<^verbatim>\<open>id: uuidv4()\<close>.
\<close>

theorem answer_header_without_id:
  "actualMessages uuidv4 (JObj [(''messages'', JArr [raw_ai ''A''])]) c
     = Inr ([answerHeaderToolMsg, AIMessage [(''type'', JStr ''ai''), (''content'', JStr ''A'')]], c)
   \<and> message_id answerHeaderToolMsg = JUndefined
   \<and> marker_name answerHeaderToolMsg = JStr ''answer_header''
   \<and> message_id (progressAIMessage u) = JStr u
   \<and> message_id (routerMessage u router) = JStr u
   \<and> message_id (selectedDocumentsAIMessage u documents) = JStr u"
  by (simp add: actualMessages_walk callback_def js_get_def raw_ai_def isLastAiMessage_def
        lastAiBlock_def Let_def opt_length_def with_content_def message_id_def marker_name_def
        tool_calls_def answerHeaderToolMsg_def tool_call_def progressAIMessage_def
        routerMessage_def selectedDocumentsAIMessage_def)

subsection \<open>Submitting a message\<close>

text \<open>
  Claim C4. When a user id is present, so that the chat call is made, and \<open>sendChat\<close>
  rejects (\<^verbatim>\<open>fetch\<close> rejects, the response is not \<^verbatim>\<open>ok\<close>, or its body is not JSON:
  lemma \<open>sendChat_rejects\<close>), then \<open>streamMessage\<close> never touches the messages, leaves
  \<^verbatim>\<open>isStreaming\<close> false, shows exactly one notification, the one of the \<^verbatim>\<open>catch\<close>
  branch, and draws no id.
\<close>

theorem backend_failure_keeps_timeline:
  assumes "\<not> userId_missing (userId s)"
    and "sendChat fetch (case params_messages of None \<Rightarrow> [] | Some ms \<Rightarrow> ms) (selectedModel s) = Inl e"
  shows "\<exists>effs. streamMessage uuidv4 fetch s params_messages c = (effs, c)
           \<and> list_all (\<lambda>s'. messages s' = messages s) (states_along effs s)
           \<and> messages (run effs s) = messages s
           \<and> isStreaming (run effs s) = False
           \<and> filter is_toast effs = [backendUnavailableToast]"
  using assms by (simp add: streamMessage_def backendUnavailableToast_def run_def)

theorem backend_failure_keeps_timeline_witness:
  "\<not> userId_missing (userId (initial_state (Some ''user-1'')))
   \<and> sendChat (\<lambda>msgs model. Response False None) [] (selectedModel (initial_state (Some ''user-1'')))
       = Inl ChatApiError
   \<and> streamMessage sample_uuid (\<lambda>msgs model. Response False None) (initial_state (Some ''user-1'')) None 0
       = ([SetRunId '''', SetIsStreaming True, Fetch [] ''google_genai/gemini-2.5-pro'',
           backendUnavailableToast, SetIsStreaming False], 0)"
proof -
  let ?s = "initial_state (Some ''user-1'')"
  let ?f = "\<lambda>(msgs :: json list) (model :: string). Response False None"
  have h1: "\<not> userId_missing (userId ?s)" by (simp add: initial_state_def)
  have h2: "sendChat ?f (case None of None \<Rightarrow> [] | Some ms \<Rightarrow> ms) (selectedModel ?s) = Inl ChatApiError"
    by (simp add: sendChat_def)
  from backend_failure_keeps_timeline[OF h1 h2, of sample_uuid 0] h1 h2 show ?thesis
    by (auto simp: streamMessage_def initial_state_def)
qed

text \<open>
  Claim C5. Without a user id (\<^verbatim>\<open>undefined\<close> or the empty string) \<open>streamMessage\<close>
  does one thing, the "User ID not found" notification: no \<^verbatim>\<open>fetch\<close>, no change of the
  messages, and \<^verbatim>\<open>isStreaming\<close> is never written, so it keeps the value it had (false,
  when no run is active) through the whole call.
\<close>

theorem missing_identity_no_call:
  assumes "userId_missing (userId s)"
  shows "\<exists>effs. streamMessage uuidv4 fetch s params_messages c = (effs, c)
           \<and> effs = [identityMissingToast]
           \<and> filter is_fetch effs = []
           \<and> filter is_toast effs = [identityMissingToast]
           \<and> list_all (\<lambda>s'. isStreaming s' = isStreaming s \<and> messages s' = messages s)
                (states_along effs s)
           \<and> run effs s = s"
  using assms by (simp add: streamMessage_def identityMissingToast_def run_def)

theorem missing_identity_no_call_witness:
  "userId_missing (userId (initial_state None))
   \<and> streamMessage sample_uuid (\<lambda>msgs model. Response True (Some (JStr ''hi''))) (initial_state None)
        (Some [raw_human ''Q'']) 0 = ([identityMissingToast], 0)
   \<and> isStreaming (run [identityMissingToast] (initial_state None)) = False"
proof -
  have h: "userId_missing (userId (initial_state None))" by (simp add: initial_state_def)
  from missing_identity_no_call[OF h, of sample_uuid
      "\<lambda>msgs model. Response True (Some (JStr ''hi''))" "Some [raw_human ''Q'']" 0] h
  show ?thesis by (auto simp: initial_state_def)
qed

lemma streamMessage_resolved:
  assumes "\<not> userId_missing (userId s)"
    and "sendChat fetch (case params_messages of None \<Rightarrow> [] | Some ms \<Rightarrow> ms) (selectedModel s)
           = Inr response"
  shows "streamMessage uuidv4 fetch s params_messages c =
           ([SetRunId '''', SetIsStreaming True,
             Fetch (case params_messages of None \<Rightarrow> [] | Some ms \<Rightarrow> ms) (selectedModel s),
             SetMessagesUpdater
               (if nullish response then Inl TypeError
                else Inr (answerMessage (get_prop response ''answer'') response (uuidv4 c))),
             SetIsStreaming False],
            if nullish response then c else Suc c)"
  using assms by (simp add: streamMessage_def js_get_def)

lemma answerMessage_content:
  "message_content (answerMessage answer response u) = (if truthy answer then answer else response)"
  "message_id (answerMessage answer response u) = JStr u"
  by (simp_all add: answerMessage_def message_content_def message_id_def)

lemma answerMessage_whole_body:
  "message_content (answerMessage (get_prop response ''answer'') response u) = response
     \<longleftrightarrow> \<not> truthy (get_prop response ''answer'')"
  using truthy_answer_differs[of response] by (auto simp: answerMessage_content)

text \<open>
  Claim C6 fails on the code. The backend answers with status 200 and the body
  \<^verbatim>\<open>{answer: ""}\<close>: the \<^verbatim>\<open>answer\<close> field is present and is the empty string, yet
  \<^verbatim>\<open>response.answer || response\<close> falls through to the whole response, and the appended
  assistant message has the response object as its content, not the field. On the body
  \<^verbatim>\<open>null\<close>, reading \<^verbatim>\<open>response.answer\<close> throws inside the updater: no message is
  appended, no id is drawn and no notification is shown.
\<close>

theorem empty_answer_appends_whole_body:
  "streamMessage sample_uuid (\<lambda>msgs model. Response True (Some (JObj [(''answer'', JStr '''')])))
        (initial_state (Some ''user-1'')) None 0
      = ([SetRunId '''', SetIsStreaming True, Fetch [] ''google_genai/gemini-2.5-pro'',
          SetMessagesUpdater
            (Inr (AIMessage [(''content'', JObj [(''answer'', JStr '''')]), (''id'', JStr ''u'')])),
          SetIsStreaming False], 1)
   \<and> map_of [(''answer'', JStr '''')] ''answer'' = Some (JStr '''')
   \<and> get_prop (JObj [(''answer'', JStr '''')]) ''answer'' = JStr ''''
   \<and> message_content (AIMessage [(''content'', JObj [(''answer'', JStr '''')]), (''id'', JStr ''u'')])
        = JObj [(''answer'', JStr '''')]
   \<and> streamMessage sample_uuid (\<lambda>msgs model. Response True (Some JNull))
        (initial_state (Some ''user-1'')) None 0
      = ([SetRunId '''', SetIsStreaming True, Fetch [] ''google_genai/gemini-2.5-pro'',
          SetMessagesUpdater (Inl TypeError), SetIsStreaming False], 0)
   \<and> messages (run [SetRunId '''', SetIsStreaming True, Fetch [] ''google_genai/gemini-2.5-pro'',
          SetMessagesUpdater (Inl TypeError), SetIsStreaming False] (initial_state (Some ''user-1'')))
        = []"
  by (simp add: streamMessage_def initial_state_def sendChat_def js_get_def answerMessage_def
        sample_uuid_def message_content_def run_def)

subsection \<open>Switching the thread\<close>

text \<open>
  Claim C9. \<open>switchSelectedThread\<close> sets the thread id first, whatever the thread holds.
  When the thread's values are falsy it then sets the messages to the empty list and
  returns. When they are truthy and the reconstruction returns a timeline, it sets the
  messages to that timeline, so that the messages afterwards are the timeline whatever they
  were before. When the reconstruction throws, on a snapshot that is not well formed, the
  exception leaves the operation after the thread id was set and the messages stay as they
  were.
\<close>

theorem switch_replaces_timeline:
  "(\<exists>rest. fst (switchSelectedThread uuidv4 thread c) = SetThreadId (thread_id thread) # rest)
   \<and> (\<not> truthy (thread_values thread) \<longrightarrow>
        switchSelectedThread uuidv4 thread c
          = ([SetThreadId (thread_id thread), SetMessages []], Returned, c)
        \<and> (\<forall>s. messages (run (fst (switchSelectedThread uuidv4 thread c)) s) = []))
   \<and> (truthy (thread_values thread) \<longrightarrow>
        (\<forall>actual c1. actualMessages uuidv4 (thread_values thread) c = Inr (actual, c1) \<longrightarrow>
           switchSelectedThread uuidv4 thread c
             = ([SetThreadId (thread_id thread), SetMessages actual], Returned, c1)
           \<and> (\<forall>s. messages (run (fst (switchSelectedThread uuidv4 thread c)) s) = actual)))
   \<and> (truthy (thread_values thread) \<longrightarrow>
        (\<forall>e. actualMessages uuidv4 (thread_values thread) c = Inl e \<longrightarrow>
           switchSelectedThread uuidv4 thread c
             = ([SetThreadId (thread_id thread)], Threw e,
                actualMessages_uuids uuidv4 (thread_values thread) c)))"
  by (auto simp: switchSelectedThread_def run_def split: sum.splits)

theorem switch_replaces_timeline_witness:
  "truthy scenario_snapshot
   \<and> switchSelectedThread sample_uuid \<lparr>thread_id = ''t1'', thread_values = scenario_snapshot\<rparr> 0
      = ([SetThreadId ''t1'',
          SetMessages
            [HumanMessage [(''type'', JStr ''human''), (''content'', JStr ''Q'')],
             progressAIMessage ''u'',
             routerMessage ''uu'' (JObj [(''decision'', JStr ''docs'')]),
             selectedDocumentsAIMessage ''uuu''
               (JArr [JObj [(''metadata'', JObj [(''source'', JStr ''x'')])]]),
             answerHeaderToolMsg,
             AIMessage [(''type'', JStr ''ai''), (''content'', JStr ''A'')]]],
         Returned, 3)
   \<and> \<not> truthy JNull
   \<and> switchSelectedThread sample_uuid \<lparr>thread_id = ''t2'', thread_values = JNull\<rparr> 0
      = ([SetThreadId ''t2'', SetMessages []], Returned, 0)"
proof -
  have t: "truthy scenario_snapshot" by (simp add: scenario_snapshot_def)
  note e = scenario_sample
  note full = switch_replaces_timeline[of sample_uuid
      "\<lparr>thread_id = ''t1'', thread_values = scenario_snapshot\<rparr>" 0,
      THEN conjunct2, THEN conjunct2, THEN conjunct1, THEN mp, THEN spec, THEN spec, THEN mp,
      THEN conjunct1]
  note empty = switch_replaces_timeline[of sample_uuid
      "\<lparr>thread_id = ''t2'', thread_values = JNull\<rparr>" 0,
      THEN conjunct2, THEN conjunct1, THEN mp, THEN conjunct1]
  from full[of _ 3] e t empty show ?thesis by simp
qed

end
